theory Spec2Isabelle
  imports Main "HOL-Library.Word"
begin

section \<open>Data model\<close>

text \<open>
  The program decorates an HTTP client. A request is handed down the chain of
  decorators by pointer, and each layer may mutate it in place, so every function of
  the model takes the request and the outside world and hands both back.

  Of \<^verbatim>\<open>*http.Request\<close> the decorators touch three things: \<^verbatim>\<open>r.Method\<close>,
  \<^verbatim>\<open>r.URL\<close> (printed by the logger, its \<^verbatim>\<open>Host\<close> rewritten by the load balancer)
  and \<^verbatim>\<open>r.Header\<close>. The URL of a request is taken as allocated. Its header map may
  be \<^verbatim>\<open>nil\<close>, as it is in a request written as a literal.
\<close>

record url =
  url_Scheme :: string
  url_Host :: string
  url_Path :: string
  url_RawQuery :: string
  url_Fragment :: string

text \<open>
  \<^verbatim>\<open>http.Header\<close> is \<^verbatim>\<open>map[string][]string\<close>; the field of a request that holds
  it is \<open>None\<close> for the \<^verbatim>\<open>nil\<close> map.
\<close>

type_synonym header = "string \<rightharpoonup> string list"

record request =
  req_Method :: string
  req_URL :: url
  req_Header :: "header option"

text \<open>
  A Go call either returns or panics; a deferred function runs in both cases.
\<close>

datatype 'a outcome = Return 'a | Panic string

text \<open>
  \<^verbatim>\<open>Header.Add(key, value)\<close> is \<^verbatim>\<open>h[key] = append(h[key], value)\<close> for the
  canonical form of the key. On an allocated map it appends the value to the slice
  stored under that key; on the \<^verbatim>\<open>nil\<close> map the assignment panics.
  \<^verbatim>\<open>Header.Get(key)\<close> is the first value stored under the key, or the empty string,
  also on the \<^verbatim>\<open>nil\<close> map. The canonicalisation of keys
  (\<^verbatim>\<open>textproto.CanonicalMIMEHeaderKey\<close>) belongs to the standard library, and is a
  parameter \<open>canon\<close> here.
\<close>

definition Header_values :: "header \<Rightarrow> string \<Rightarrow> string list" where
  "Header_values h k = (case h k of None \<Rightarrow> [] | Some vs \<Rightarrow> vs)"

definition append_value :: "(string \<Rightarrow> string) \<Rightarrow> header \<Rightarrow> string \<Rightarrow> string \<Rightarrow> header" where
  "append_value canon h key val = h(canon key \<mapsto> Header_values h (canon key) @ [val])"

definition Header_Add ::
    "(string \<Rightarrow> string) \<Rightarrow> header option \<Rightarrow> string \<Rightarrow> string \<Rightarrow> header option outcome" where
  "Header_Add canon hdr key val =
     (case hdr of
        None \<Rightarrow> Panic ''assignment to entry in nil map''
      | Some h \<Rightarrow> Return (Some (append_value canon h key val)))"

definition Header_Get :: "(string \<Rightarrow> string) \<Rightarrow> header option \<Rightarrow> string \<Rightarrow> string" where
  "Header_Get canon hdr key =
     (case hdr of
        None \<Rightarrow> []
      | Some h \<Rightarrow> (case Header_values h (canon key) of [] \<Rightarrow> [] | v # _ \<Rightarrow> v))"

text \<open>\<^verbatim>\<open>(*http.Request).UserAgent()\<close> is the request's User-Agent header.\<close>

definition UserAgent :: "(string \<Rightarrow> string) \<Rightarrow> request \<Rightarrow> string" where
  "UserAgent canon r = Header_Get canon (req_Header r) ''User-Agent''"

text \<open>
  A \<^verbatim>\<open>(*http.Response, error)\<close> pair: either component may be \<^verbatim>\<open>nil\<close>.
\<close>

record response =
  StatusCode :: int
  Body :: string

datatype error = Error string

type_synonym reply = "response option \<times> error option"

subsection \<open>The world outside the decorators\<close>

text \<open>
  Go's \<^verbatim>\<open>int\<close> is the 64-bit signed integer of a 64-bit platform, read by
  \<open>sint\<close>; its increment wraps. \<^verbatim>\<open>time.Duration\<close> is an \<^verbatim>\<open>int64\<close> of
  nanoseconds; its multiplication wraps.
\<close>

type_synonym go_int = "64 word"

type_synonym Duration = "64 word"

text \<open>
  Modelled from the spec: the \<^verbatim>\<open>Counter\<close> and \<^verbatim>\<open>Histogram\<close> types and their
  constructors are declared outside the source file. The specification gives the
  collaborators as \<^verbatim>\<open>Add(delta: integer)\<close> and \<^verbatim>\<open>Observe(value: duration-as-number)\<close>,
  sinks whose internals the decorators do not see. Each is identified by its name,
  and a call to it is an event of the trace. A \<^verbatim>\<open>*log.Logger\<close> is identified by its
  prefix in the same way.
\<close>

type_synonym Logger = string
type_synonym Counter = string
type_synonym Histogram = string

text \<open>
  Everything the program does to its environment is an event, kept in the order in
  which it happened: a line given to a logger, an observation, a counter increment,
  a sleep, and a request that a transport put on the wire for a host.
\<close>

datatype event =
    Printf Logger string
  | Observe Histogram "64 word"
  | Add Counter int
  | Sleep Duration
  | Sent string

type_synonym addr = nat

text \<open>
  The generator behind \<^verbatim>\<open>*rand.Rand\<close> is the standard library's; its state is
  kept abstract.
\<close>

type_synonym rng = nat

text \<open>
  The world: the trace of events, the monotonic clock in nanoseconds, and the heap
  cells that closures capture by reference (the counter of a round-robin director,
  the generator of a random director).
\<close>

record world =
  trace :: "event list"
  clock :: int
  uint64s :: "addr \<Rightarrow> 64 word"
  rands :: "addr \<Rightarrow> rng"

definition emit :: "event \<Rightarrow> world \<Rightarrow> world" where
  "emit e w = w\<lparr>trace := trace w @ [e]\<rparr>"

text \<open>
  \<^verbatim>\<open>time.Sleep(d)\<close> suspends the caller for at least \<open>d\<close>, and returns at once
  when \<open>d\<close> is zero or negative.
\<close>

definition time_Sleep :: "Duration \<Rightarrow> world \<Rightarrow> world" where
  "time_Sleep d w = emit (Sleep d) (w\<lparr>clock := clock w + max 0 (sint d)\<rparr>)"

text \<open>
  \<^verbatim>\<open>time.Since(start)\<close> is the time elapsed on the clock, saturated to the range
  of a \<^verbatim>\<open>Duration\<close>; \<^verbatim>\<open>Nanoseconds()\<close> is that \<^verbatim>\<open>int64\<close>.
\<close>

definition time_Since :: "int \<Rightarrow> world \<Rightarrow> Duration" where
  "time_Since start w = word_of_int (max (- (2 ^ 63)) (min (2 ^ 63 - 1) (clock w - start)))"

definition Nanoseconds :: "Duration \<Rightarrow> 64 word" where
  "Nanoseconds d = d"

section \<open>Clients and decorators\<close>

text \<open>
  A \<^verbatim>\<open>Client\<close> has the one method \<^verbatim>\<open>Do\<close>; a \<^verbatim>\<open>ClientFunc\<close> is a function used
  as a client, so a client is its \<^verbatim>\<open>Do\<close>. A call to it returns, panics, or never
  comes back: the value \<open>None\<close>.
\<close>

type_synonym Client = "request \<Rightarrow> world \<Rightarrow> (reply outcome \<times> request \<times> world) option"

type_synonym Decorator = "Client \<Rightarrow> Client"

type_synonym Director = "request \<Rightarrow> world \<Rightarrow> unit outcome \<times> request \<times> world"

subsection \<open>Logging\<close>

text \<open>
  The operands of \<^verbatim>\<open>Printf\<close>: a string, a value with a \<^verbatim>\<open>String()\<close> method
  (given by what the method returns), and a function value, given by its type and by
  the text of its code pointer. The verb \<^verbatim>\<open>%s\<close> prints the first two as text; a
  function value is no string, and \<^verbatim>\<open>fmt\<close> prints the bad-verb form
  \<^verbatim>\<open>%!s(type=pointer)\<close> for it.
\<close>

datatype operand = Str string | Stringer string | FuncValue string string

fun verb_s :: "operand \<Rightarrow> string" where
  "verb_s (Str s) = s"
| "verb_s (Stringer s) = s"
| "verb_s (FuncValue ty ptr) = ''%!s('' @ ty @ ''='' @ ptr @ '')''"

text \<open>The format \<^verbatim>\<open>"%s: %s %s"\<close> of the logging decorator.\<close>

definition Sprintf3 :: "operand \<Rightarrow> operand \<Rightarrow> operand \<Rightarrow> string" where
  "Sprintf3 a b c = verb_s a @ '': '' @ verb_s b @ '' '' @ verb_s c"

text \<open>
  The first operand in the source is \<^verbatim>\<open>r.UserAgent\<close>, without a call: the method
  value, of type \<^verbatim>\<open>func() string\<close>. The text of its code pointer is fixed by the
  compiled program, and is the parameter \<open>fptr\<close>. The third operand is \<^verbatim>\<open>r.URL\<close>,
  which \<^verbatim>\<open>%s\<close> prints through \<^verbatim>\<open>(*url.URL).String\<close>; that method, with its
  escaping and its rules for the parts that are empty, belongs to the standard
  library, and is the parameter \<open>String\<close>.
\<close>

definition Logging :: "(url \<Rightarrow> string) \<Rightarrow> string \<Rightarrow> Logger \<Rightarrow> Decorator" where
  "Logging String fptr l c = (\<lambda>r w.
     c r (emit (Printf l (Sprintf3 (FuncValue ''func() string'' fptr)
                                    (Str (req_Method r))
                                    (Stringer (String (req_URL r))))) w))"

subsection \<open>Instrumentation\<close>

text \<open>
  The deferred function takes \<^verbatim>\<open>time.Now()\<close> as its argument, evaluated at the
  \<^verbatim>\<open>defer\<close> statement, and runs when the enclosing function leaves, by return or by
  panic. When the wrapped client never comes back, neither does this one.
\<close>

definition Instrumentation :: "Counter \<Rightarrow> Histogram \<Rightarrow> Decorator" where
  "Instrumentation requests latency c = (\<lambda>r w.
     let start = clock w in
     case c r w of
       None \<Rightarrow> None
     | Some (out, r', w') \<Rightarrow>
         Some (out, r', emit (Add requests 1)
                          (emit (Observe latency (Nanoseconds (time_Since start w'))) w')))"

subsection \<open>Fault tolerance\<close>

text \<open>
  The loop \<^verbatim>\<open>for i := 0; i <= attempts; i++\<close> over the named results
  \<^verbatim>\<open>res, err\<close>, which start as \<^verbatim>\<open>nil, nil\<close>. The counter and the bound are
  \<^verbatim>\<open>int\<close>s, compared as signed numbers; the increment wraps, so under the largest
  bound the condition never fails, and the loop need not end. The product of the two
  durations is the \<^verbatim>\<open>int64\<close> product, which wraps.
\<close>

partial_function (option) FaultTolerance_loop ::
    "go_int \<Rightarrow> Duration \<Rightarrow> Client \<Rightarrow> go_int \<Rightarrow> reply \<Rightarrow> request \<Rightarrow> world
      \<Rightarrow> (reply outcome \<times> request \<times> world) option" where
  "FaultTolerance_loop attempts backoff c i res_err r w =
     (if sint i \<le> sint attempts then
        (case c r w of
           None \<Rightarrow> None
         | Some (Panic p, r', w') \<Rightarrow> Some (Panic p, r', w')
         | Some (Return (res, err), r', w') \<Rightarrow>
             if err = None then Some (Return (res, err), r', w')
             else FaultTolerance_loop attempts backoff c (i + 1) (res, err) r'
                    (time_Sleep (backoff * i) w'))
      else Some (Return res_err, r, w))"

definition FaultTolerance :: "go_int \<Rightarrow> Duration \<Rightarrow> Decorator" where
  "FaultTolerance attempts backoff c = (\<lambda>r w.
     FaultTolerance_loop attempts backoff c 0 (None, None) r w)"

subsection \<open>Headers and authorization\<close>

definition Header :: "(string \<Rightarrow> string) \<Rightarrow> string \<Rightarrow> string \<Rightarrow> Decorator" where
  "Header canon name val c = (\<lambda>r w.
     case Header_Add canon (req_Header r) name val of
       Panic m \<Rightarrow> Some (Panic m, r, w)
     | Return hdr \<Rightarrow> c (r\<lparr>req_Header := hdr\<rparr>) w)"

definition Authorization :: "(string \<Rightarrow> string) \<Rightarrow> string \<Rightarrow> Decorator" where
  "Authorization canon token = Header canon ''Authorization'' token"

subsection \<open>Load balancing\<close>

definition LoadBalancing :: "Director \<Rightarrow> Decorator" where
  "LoadBalancing dir c = (\<lambda>r w.
     case dir r w of
       (Panic p, r', w') \<Rightarrow> Some (Panic p, r', w')
     | (Return u, r', w') \<Rightarrow> c r' w')"

text \<open>Indexing a slice panics out of range.\<close>

definition index :: "string list \<Rightarrow> nat \<Rightarrow> string outcome" where
  "index xs i = (if i < length xs then Return (xs ! i) else Panic ''index out of range'')"

definition set_Host :: "string \<Rightarrow> request \<Rightarrow> request" where
  "set_Host h r = r\<lparr>req_URL := (req_URL r)\<lparr>url_Host := h\<rparr>\<rparr>"

text \<open>
  \<^verbatim>\<open>RoundRobin(robin, backends...)\<close> returns a closure over its parameter
  \<^verbatim>\<open>robin\<close>, which \<^verbatim>\<open>atomic.AddUint64(&robin, 1)\<close> increments in place and reads
  back. The variable lives in the heap cell \<open>p\<close> allocated for the call:
  \<open>RoundRobin_func\<close> is the function literal, \<open>RoundRobin\<close> the construction that
  stores the starting value.
\<close>

definition RoundRobin_func :: "addr \<Rightarrow> string list \<Rightarrow> Director" where
  "RoundRobin_func p backends = (\<lambda>r w.
     if length backends > 0 then
       (let n = uint64s w p + 1;
            w' = w\<lparr>uint64s := (uint64s w)(p := n)\<rparr>
        in case index backends (unat (n mod word_of_nat (length backends))) of
             Panic m \<Rightarrow> (Panic m, r, w')
           | Return h \<Rightarrow> (Return (), set_Host h r, w'))
     else (Return (), r, w))"

definition RoundRobin :: "addr \<Rightarrow> 64 word \<Rightarrow> string list \<Rightarrow> world \<Rightarrow> Director \<times> world" where
  "RoundRobin p robin backends w =
     (RoundRobin_func p backends, w\<lparr>uint64s := (uint64s w)(p := robin)\<rparr>)"

text \<open>
  \<^verbatim>\<open>Random(seed, backends...)\<close> closes over a generator made from the seed.
  \<open>NewSource\<close> and \<open>Intn\<close> stand for the standard library: \<open>Intn g n\<close> gives
  the number drawn and the next state of the generator.
\<close>

definition Random_func :: "(rng \<Rightarrow> int \<Rightarrow> int \<times> rng) \<Rightarrow> addr \<Rightarrow> string list \<Rightarrow> Director" where
  "Random_func Intn p backends = (\<lambda>r w.
     if length backends > 0 then
       (case Intn (rands w p) (int (length backends)) of (n, g') \<Rightarrow>
          let w' = w\<lparr>rands := (rands w)(p := g')\<rparr>
          in if n < 0 then (Panic ''index out of range'', r, w')
             else case index backends (nat n) of
                    Panic m \<Rightarrow> (Panic m, r, w')
                  | Return h \<Rightarrow> (Return (), set_Host h r, w'))
     else (Return (), r, w))"

definition Random ::
    "(64 word \<Rightarrow> rng) \<Rightarrow> (rng \<Rightarrow> int \<Rightarrow> int \<times> rng) \<Rightarrow> addr \<Rightarrow> 64 word \<Rightarrow> string list
      \<Rightarrow> world \<Rightarrow> Director \<times> world" where
  "Random NewSource Intn p seed backends w =
     (Random_func Intn p backends, w\<lparr>rands := (rands w)(p := NewSource seed)\<rparr>)"

subsection \<open>Composition\<close>

text \<open>
  \<^verbatim>\<open>decorated := c; for _, decorate := range ds { decorated = decorate(decorated) }\<close>
\<close>

fun Decorate :: "Client \<Rightarrow> Decorator list \<Rightarrow> Client" where
  "Decorate decorated [] = decorated"
| "Decorate decorated (decorate # ds) = Decorate (decorate decorated) ds"

section \<open>Recording transports\<close>

text \<open>
  Clients to put under the decorators. Each invocation puts one request on the wire,
  which the trace records, so the number of \<open>Sent\<close> events is the number of times a
  transport has been invoked.
\<close>

fun is_Sent :: "event \<Rightarrow> bool" where
  "is_Sent (Sent h) = True"
| "is_Sent e = False"

definition calls :: "world \<Rightarrow> nat" where
  "calls w = length (filter is_Sent (trace w))"

text \<open>
  A transport that fails on its first \<open>k\<close> invocations and succeeds from then on.
  The failure carries the number of the invocation that produced it.
\<close>

definition flaky :: "nat \<Rightarrow> Client" where
  "flaky k = (\<lambda>r w.
     let n = calls w; w' = emit (Sent (url_Host (req_URL r))) w
     in if n < k then Some (Return (None, Some (Error (replicate (Suc n) CHR ''x''))), r, w')
        else Some (Return (Some \<lparr>StatusCode = 200, Body = ''OK''\<rparr>, None), r, w'))"

text \<open>
  The opposite transport: it succeeds on its first invocation and fails from then on.
\<close>

definition spent :: Client where
  "spent = (\<lambda>r w.
     let n = calls w; w' = emit (Sent (url_Host (req_URL r))) w
     in if n = 0 then Some (Return (Some \<lparr>StatusCode = 200, Body = ''OK''\<rparr>, None), r, w')
        else Some (Return (None, Some (Error ''spent'')), r, w'))"

text \<open>
  What it is for a client to fail on its first \<open>k\<close> invocations and to succeed on
  the next one, whatever the request: every invocation returns and is counted once.
\<close>

definition fails_first :: "nat \<Rightarrow> Client \<Rightarrow> bool" where
  "fails_first k c \<longleftrightarrow>
     (\<forall>r w. \<exists>res err r' w'.
        c r w = Some (Return (res, err), r', w') \<and> calls w' = Suc (calls w) \<and>
        (calls w < k \<longrightarrow> err \<noteq> None) \<and> (calls w = k \<longrightarrow> err = None))"

text \<open>
  A decorator in general form: some logic before the delegation and some after it,
  each free to change the request and the world.
\<close>

definition around ::
    "(request \<Rightarrow> world \<Rightarrow> request \<times> world) \<Rightarrow> (request \<Rightarrow> world \<Rightarrow> request \<times> world) \<Rightarrow> Decorator" where
  "around pre post c = (\<lambda>r w.
     case pre r w of (r1, w1) \<Rightarrow>
     case c r1 w1 of
       None \<Rightarrow> None
     | Some (out, r2, w2) \<Rightarrow>
         case post r2 w2 of (r3, w3) \<Rightarrow> Some (out, r3, w3))"

text \<open>
  What a call hands back to its caller: the returned pair or the panic, without the
  request and the world.
\<close>

definition handed_back :: "(reply outcome \<times> request \<times> world) option \<Rightarrow> reply outcome option" where
  "handed_back x = map_option fst x"

text \<open>
  A decorator passes through when it invokes the wrapped client once, on a request
  and in a world that it prepares without looking at the client, and hands back
  exactly what that invocation hands back; or else panics before it delegates,
  whatever the client is.
\<close>

definition passes :: "Decorator \<Rightarrow> bool" where
  "passes d \<longleftrightarrow>
     (\<exists>f g p. \<forall>c r w.
        handed_back (d c r w) =
          (case p r w of
             Some m \<Rightarrow> Some (Panic m)
           | None \<Rightarrow> handed_back (c (f r w) (g r w))))"

text \<open>
  The hosts that \<open>n\<close> sequential invocations of a director select: the host of the
  request after each invocation.
\<close>

fun hosts :: "nat \<Rightarrow> Director \<Rightarrow> request \<Rightarrow> world \<Rightarrow> string list" where
  "hosts 0 dir r w = []"
| "hosts (Suc n) dir r w =
     (case dir r w of (out, r', w') \<Rightarrow> url_Host (req_URL r') # hosts n dir r' w')"

text \<open>
  A request made by \<^verbatim>\<open>http.NewRequest\<close>, the same request with a \<^verbatim>\<open>nil\<close> header
  map, and a world to run the program in.
\<close>

definition get_index :: request where
  "get_index =
     \<lparr>req_Method = ''GET'',
      req_URL = \<lparr>url_Scheme = ''http'', url_Host = ''example.org'', url_Path = ''/index'',
                 url_RawQuery = [], url_Fragment = []\<rparr>,
      req_Header = Some [''User-Agent'' \<mapsto> [''curl/8.0'']]\<rparr>"

definition bare :: request where
  "bare = get_index\<lparr>req_Header := None\<rparr>"

definition boot :: world where
  "boot = \<lparr>trace = [], clock = 0, uint64s = (\<lambda>p. 0), rands = (\<lambda>p. 0)\<rparr>"

definition web :: "string list" where
  "web = [''web01'', ''web02'', ''web03'']"

text \<open>
  What \<^verbatim>\<open>(*url.URL).String\<close> gives for a URL that has a scheme, a host and an
  absolute path with nothing to escape, and neither query nor fragment, as the URL of
  \<open>get_index\<close> is. It stands for the method on such URLs only.
\<close>

definition scheme_host_path :: "url \<Rightarrow> string" where
  "scheme_host_path u = url_Scheme u @ ''://'' @ url_Host u @ url_Path u"

section \<open>Fault tolerance: the retry loop\<close>

lemma calls_emit: "calls (emit e w) = (if is_Sent e then Suc (calls w) else calls w)"
  by (simp add: calls_def emit_def)

lemma calls_time_Sleep: "calls (time_Sleep d w) = calls w"
  by (simp add: time_Sleep_def calls_def emit_def)

lemma flaky_fails_first: "fails_first k (flaky k)"
  by (simp add: fails_first_def flaky_def Let_def calls_emit)

lemma sint_le_max: "sint (i :: go_int) \<le> 2 ^ 63 - 1"
  using sint_lt [of i] by simp

lemma sint_succ: "sint (i :: go_int) < 2 ^ 63 - 1 \<Longrightarrow> sint (i + 1) = sint i + 1"
  using sint_ge [of i]
  by (simp add: sint_word_ariths signed_take_bit_int_eq_self)

text \<open>One turn of the loop around a client that returns a failure.\<close>

lemma loop_retry:
  assumes "sint i \<le> sint attempts" and "c r w = Some (Return (res, Some e), r', w')"
  shows "FaultTolerance_loop attempts backoff c i re r w =
    FaultTolerance_loop attempts backoff c (i + 1) (res, Some e) r' (time_Sleep (backoff * i) w')"
  using assms by (subst FaultTolerance_loop.simps) simp

lemma loop_success:
  assumes "sint i \<le> sint attempts" and "c r w = Some (Return (res, None), r', w')"
  shows "FaultTolerance_loop attempts backoff c i re r w = c r w"
  using assms by (subst FaultTolerance_loop.simps) simp

lemma loop_exit:
  assumes "sint attempts < sint i"
  shows "FaultTolerance_loop attempts backoff c i re r w = Some (Return re, r, w)"
  using assms by (subst FaultTolerance_loop.simps) simp

text \<open>
  When the failures that the client has left fit into the attempts that the loop has
  left, the loop ends with the invocation that succeeds, and hands back what that
  invocation produced, request and world included.
\<close>

lemma loop_succeeds:
  assumes c: "fails_first k c"
  shows "n = k - calls w \<Longrightarrow> calls w \<le> k \<Longrightarrow> sint i + int n \<le> sint attempts \<Longrightarrow>
    \<exists>r0 w0. calls w0 = k \<and> FaultTolerance_loop attempts backoff c i re r w = c r0 w0"
proof (induction n arbitrary: i re r w)
  case 0
  from c obtain res err r' w' where
    h: "c r w = Some (Return (res, err), r', w')" "calls w = k \<longrightarrow> err = None"
    unfolding fails_first_def by blast
  from 0 have k: "calls w = k" and i: "sint i \<le> sint attempts" by auto
  from h k have "c r w = Some (Return (res, None), r', w')" by simp
  with i have "FaultTolerance_loop attempts backoff c i re r w = c r w"
    by (rule loop_success)
  with k show ?case by blast
next
  case (Suc n)
  from c obtain res err r' w' where
    h: "c r w = Some (Return (res, err), r', w')" "calls w' = Suc (calls w)"
       "calls w < k \<longrightarrow> err \<noteq> None"
    unfolding fails_first_def by blast
  from Suc.prems have lt: "calls w < k" and i: "sint i < sint attempts" by auto
  with h obtain e where e: "err = Some e" by auto
  from i sint_le_max [of attempts] have s: "sint (i + 1) = sint i + 1"
    by (intro sint_succ) simp
  have step: "FaultTolerance_loop attempts backoff c i re r w =
      FaultTolerance_loop attempts backoff c (i + 1) (res, Some e) r'
        (time_Sleep (backoff * i) w')"
    using i h(1) e by (intro loop_retry) simp_all
  have "\<exists>r0 w0. calls w0 = k \<and>
      FaultTolerance_loop attempts backoff c (i + 1) (res, Some e) r'
        (time_Sleep (backoff * i) w') = c r0 w0"
    using Suc.prems h(2) s by (intro Suc.IH) (auto simp: calls_time_Sleep)
  with step show ?case by simp
qed

text \<open>
  Under the largest bound the condition of the loop holds for every counter, so the
  loop ends only with the invocation that succeeds.
\<close>

lemma loop_unbounded:
  assumes c: "fails_first k c" and m: "sint attempts = 2 ^ 63 - 1"
  shows "n = k - calls w \<Longrightarrow> calls w \<le> k \<Longrightarrow>
    \<exists>r0 w0. calls w0 = k \<and> FaultTolerance_loop attempts backoff c i re r w = c r0 w0"
proof (induction n arbitrary: i re r w)
  case 0
  from c obtain res err r' w' where
    h: "c r w = Some (Return (res, err), r', w')" "calls w = k \<longrightarrow> err = None"
    unfolding fails_first_def by blast
  from 0 have k: "calls w = k" by auto
  have i: "sint i \<le> sint attempts" using sint_le_max [of i] m by simp
  from h k have "c r w = Some (Return (res, None), r', w')" by simp
  with i have "FaultTolerance_loop attempts backoff c i re r w = c r w"
    by (rule loop_success)
  with k show ?case by blast
next
  case (Suc n)
  from c obtain res err r' w' where
    h: "c r w = Some (Return (res, err), r', w')" "calls w' = Suc (calls w)"
       "calls w < k \<longrightarrow> err \<noteq> None"
    unfolding fails_first_def by blast
  from Suc.prems have lt: "calls w < k" by auto
  have i: "sint i \<le> sint attempts" using sint_le_max [of i] m by simp
  from lt h obtain e where e: "err = Some e" by auto
  have step: "FaultTolerance_loop attempts backoff c i re r w =
      FaultTolerance_loop attempts backoff c (i + 1) (res, Some e) r'
        (time_Sleep (backoff * i) w')"
    using i h(1) e by (intro loop_retry) simp_all
  have "\<exists>r0 w0. calls w0 = k \<and>
      FaultTolerance_loop attempts backoff c (i + 1) (res, Some e) r'
        (time_Sleep (backoff * i) w') = c r0 w0"
    using Suc.prems h(2) by (intro Suc.IH) (auto simp: calls_time_Sleep)
  with step show ?case by simp
qed

text \<open>
  When the client has more failures left than the loop has attempts, and the bound is
  not the largest, the loop runs to its bound: the last invocation is a failure, the
  loop sleeps once more and hands that failure back.
\<close>

lemma loop_exhausts:
  assumes c: "fails_first k c" and m: "sint attempts < 2 ^ 63 - 1"
  shows "n = nat (sint attempts - sint i) \<Longrightarrow> sint i \<le> sint attempts \<Longrightarrow> calls w + n < k \<Longrightarrow>
    \<exists>r0 w0 res e r1 w1. calls w0 = calls w + n \<and>
      c r0 w0 = Some (Return (res, Some e), r1, w1) \<and>
      FaultTolerance_loop attempts backoff c i re r w =
        Some (Return (res, Some e), r1, time_Sleep (backoff * attempts) w1)"
proof (induction n arbitrary: i re r w)
  case 0
  from c obtain res err r' w' where
    h: "c r w = Some (Return (res, err), r', w')" "calls w < k \<longrightarrow> err \<noteq> None"
    unfolding fails_first_def by blast
  from 0 have "sint i = sint attempts" and lt: "calls w < k" by auto
  then have i: "i = attempts" by (intro signed_word_eqI) simp
  from lt h obtain e where e: "err = Some e" by auto
  have "sint (attempts + 1) = sint attempts + 1" using m by (rule sint_succ)
  then have x: "sint attempts < sint (attempts + 1)" by simp
  have "FaultTolerance_loop attempts backoff c i re r w =
      FaultTolerance_loop attempts backoff c (attempts + 1) (res, Some e) r'
        (time_Sleep (backoff * attempts) w')"
    using h(1) e unfolding i by (intro loop_retry) simp_all
  also have "\<dots> = Some (Return (res, Some e), r', time_Sleep (backoff * attempts) w')"
    using x by (rule loop_exit)
  finally show ?case using h(1) e by auto
next
  case (Suc n)
  from c obtain res err r' w' where
    h: "c r w = Some (Return (res, err), r', w')" "calls w' = Suc (calls w)"
       "calls w < k \<longrightarrow> err \<noteq> None"
    unfolding fails_first_def by blast
  from Suc.prems have lt: "calls w < k" and i: "sint i < sint attempts" by auto
  with h obtain e where e: "err = Some e" by auto
  from i m have s: "sint (i + 1) = sint i + 1"
    by (intro sint_succ) simp
  have step: "FaultTolerance_loop attempts backoff c i re r w =
      FaultTolerance_loop attempts backoff c (i + 1) (res, Some e) r'
        (time_Sleep (backoff * i) w')"
    using i h(1) e by (intro loop_retry) simp_all
  have "\<exists>r0 w0 res' e' r1 w1. calls w0 = calls (time_Sleep (backoff * i) w') + n \<and>
      c r0 w0 = Some (Return (res', Some e'), r1, w1) \<and>
      FaultTolerance_loop attempts backoff c (i + 1) (res, Some e) r'
        (time_Sleep (backoff * i) w') =
        Some (Return (res', Some e'), r1, time_Sleep (backoff * attempts) w1)"
    using Suc.prems h(2) s i by (intro Suc.IH) (auto simp: calls_time_Sleep)
  with step h(2) show ?case by (simp add: calls_time_Sleep)
qed

text \<open>
  C2, as amended. Let the wrapped client fail on its first \<open>k\<close> invocations and
  succeed on the next one, and let none have happened yet. With \<open>attempts \<ge> k\<close> the
  decorated client hands back exactly what the client produced on its invocation
  number \<open>k + 1\<close>, a success, and the client has then been invoked \<open>k + 1\<close> times;
  the same holds under the largest bound, where the counter wraps and the condition of
  the loop never fails. With \<open>0 \<le> attempts < k\<close>, and \<open>attempts\<close> not the largest
  \<^verbatim>\<open>int\<close>, it hands back the failure that the client produced on its invocation
  number \<open>attempts + 1\<close>, the last one, after one more sleep, and the client has been
  invoked \<open>attempts + 1\<close> times.
\<close>

theorem FaultTolerance_retries:
  assumes c: "fails_first k c" and w: "calls w = 0"
  shows "(int k \<le> sint attempts \<or> sint attempts = 2 ^ 63 - 1 \<longrightarrow>
           (\<exists>r0 w0 res r' w'. calls w0 = k \<and> c r0 w0 = Some (Return (res, None), r', w') \<and>
              FaultTolerance attempts backoff c r w = Some (Return (res, None), r', w') \<and>
              calls w' = k + 1)) \<and>
         (0 \<le> sint attempts \<and> sint attempts < int k \<and> sint attempts < 2 ^ 63 - 1 \<longrightarrow>
           (\<exists>r0 w0 res e r' w'. int (calls w0) = sint attempts \<and>
              c r0 w0 = Some (Return (res, Some e), r', w') \<and>
              FaultTolerance attempts backoff c r w =
                Some (Return (res, Some e), r', time_Sleep (backoff * attempts) w') \<and>
              int (calls (time_Sleep (backoff * attempts) w')) = sint attempts + 1))"
proof (intro conjI impI)
  assume a: "int k \<le> sint attempts \<or> sint attempts = 2 ^ 63 - 1"
  have "\<exists>r0 w0. calls w0 = k \<and> FaultTolerance attempts backoff c r w = c r0 w0"
  proof (cases "sint attempts = 2 ^ 63 - 1")
    case True
    from loop_unbounded [OF c True refl, of w backoff 0 "(None, None)" r] w
    show ?thesis by (simp add: FaultTolerance_def)
  next
    case False
    with a have "sint (0 :: go_int) + int (k - calls w) \<le> sint attempts" using w by simp
    from loop_succeeds [OF c refl _ this, of backoff "(None, None)" r] w
    show ?thesis by (simp add: FaultTolerance_def)
  qed
  then obtain r0 w0 where h: "calls w0 = k" "FaultTolerance attempts backoff c r w = c r0 w0"
    by blast
  from c obtain res err r' w' where
    d: "c r0 w0 = Some (Return (res, err), r', w')" "calls w' = Suc (calls w0)"
       "calls w0 = k \<longrightarrow> err = None"
    unfolding fails_first_def by blast
  with h show "\<exists>r0 w0 res r' w'. calls w0 = k \<and> c r0 w0 = Some (Return (res, None), r', w') \<and>
      FaultTolerance attempts backoff c r w = Some (Return (res, None), r', w') \<and> calls w' = k + 1"
    by auto
next
  assume a: "0 \<le> sint attempts \<and> sint attempts < int k \<and> sint attempts < 2 ^ 63 - 1"
  then have m: "sint attempts < 2 ^ 63 - 1" and z: "sint (0 :: go_int) \<le> sint attempts"
    and n: "calls w + nat (sint attempts - sint (0 :: go_int)) < k"
    using w by auto
  from loop_exhausts [OF c m refl z n, of backoff "(None, None)" r]
  obtain r0 w0 res e r' w' where g: "calls w0 = calls w + nat (sint attempts - sint (0 :: go_int))"
    "c r0 w0 = Some (Return (res, Some e), r', w')"
    "FaultTolerance_loop attempts backoff c 0 (None, None) r w =
       Some (Return (res, Some e), r', time_Sleep (backoff * attempts) w')"
    by blast
  from g(1) a w have "int (calls w0) = sint attempts" by simp
  with g have h: "int (calls w0) = sint attempts"
    "c r0 w0 = Some (Return (res, Some e), r', w')"
    "FaultTolerance attempts backoff c r w =
       Some (Return (res, Some e), r', time_Sleep (backoff * attempts) w')"
    by (simp_all add: FaultTolerance_def)
  from c h(2) have "calls w' = Suc (calls w0)"
    unfolding fails_first_def by (metis option.inject prod.inject)
  with h(1) have "int (calls (time_Sleep (backoff * attempts) w')) = sint attempts + 1"
    by (simp add: calls_time_Sleep)
  with h show "\<exists>r0 w0 res e r' w'. int (calls w0) = sint attempts \<and>
      c r0 w0 = Some (Return (res, Some e), r', w') \<and>
      FaultTolerance attempts backoff c r w =
        Some (Return (res, Some e), r', time_Sleep (backoff * attempts) w') \<and>
      int (calls (time_Sleep (backoff * attempts) w')) = sint attempts + 1"
    by blast
qed

text \<open>
  The transport that fails twice, under three further attempts and under one: the
  third invocation succeeds, and the second failure comes back.
\<close>

theorem FaultTolerance_retries_witness:
  "fails_first 2 (flaky 2) \<and> calls boot = 0 \<and>
   handed_back (FaultTolerance 3 1000 (flaky 2) get_index boot) =
     Some (Return (Some \<lparr>StatusCode = 200, Body = ''OK''\<rparr>, None)) \<and>
   map_option (\<lambda>x. calls (snd (snd x))) (FaultTolerance 3 1000 (flaky 2) get_index boot) = Some 3 \<and>
   handed_back (FaultTolerance 1 1000 (flaky 2) get_index boot) =
     Some (Return (None, Some (Error ''xx''))) \<and>
   map_option (\<lambda>x. calls (snd (snd x))) (FaultTolerance 1 1000 (flaky 2) get_index boot) = Some 2"
proof -
  have f: "fails_first 2 (flaky 2)" by (rule flaky_fails_first)
  have z: "calls boot = 0" by (simp add: calls_def boot_def)
  have fl: "\<And>r w. flaky 2 r w =
      (if calls w < 2 then Some (Return (None, Some (Error (replicate (Suc (calls w)) CHR ''x''))), r,
                             emit (Sent (url_Host (req_URL r))) w)
       else Some (Return (Some \<lparr>StatusCode = 200, Body = ''OK''\<rparr>, None), r,
             emit (Sent (url_Host (req_URL r))) w))"
    by (simp add: flaky_def Let_def)
  from FaultTolerance_retries [OF f z, of 3 1000 get_index]
  obtain r1 w1 res r' w' where s: "calls w1 = 2"
    "flaky 2 r1 w1 = Some (Return (res, None), r', w')"
    "FaultTolerance 3 1000 (flaky 2) get_index boot = Some (Return (res, None), r', w')"
    "calls w' = 2 + 1"
    by auto
  from FaultTolerance_retries [OF f z, of 1 1000 get_index]
  obtain r2 w2 res2 e2 r2' w2' where t: "int (calls w2) = sint (1 :: go_int)"
    "flaky 2 r2 w2 = Some (Return (res2, Some e2), r2', w2')"
    "FaultTolerance 1 1000 (flaky 2) get_index boot =
       Some (Return (res2, Some e2), r2', time_Sleep (1000 * 1) w2')"
    "int (calls (time_Sleep (1000 * 1) w2')) = sint (1 :: go_int) + 1"
    by auto
  from s(1,2) have "res = Some \<lparr>StatusCode = 200, Body = ''OK''\<rparr>"
    by (simp add: fl)
  moreover from t(1,2) have "res2 = None \<and> e2 = Error ''xx''"
    by (simp add: fl)
  ultimately show ?thesis using f z s(3,4) t(3,4) by (simp add: handed_back_def)
qed

text \<open>
  C2, as stated, fails for a negative number of attempts: \<open>- 1\<close> is below \<open>k = 1\<close>,
  and around the transport that fails once the decorated client hands back no failure
  but a \<^verbatim>\<open>nil\<close> response with a \<^verbatim>\<open>nil\<close> error.
\<close>

theorem FaultTolerance_no_failure:
  "sint (- 1 :: go_int) < int 1 \<and> fails_first 1 (flaky 1) \<and> calls boot = 0 \<and>
   FaultTolerance (- 1) 1000 (flaky 1) get_index boot = Some (Return (None, None), get_index, boot)"
  by (simp add: flaky_fails_first FaultTolerance_def FaultTolerance_loop.simps calls_def boot_def)

text \<open>
  C10. With a negative number of attempts the loop body never runs: whatever the
  wrapped client is, the decorated client leaves the request and the world as they
  are and returns the zero values of its named results, a \<^verbatim>\<open>nil\<close> response and a
  \<^verbatim>\<open>nil\<close> error.
\<close>

theorem FaultTolerance_negative:
  "sint attempts < 0 \<Longrightarrow>
   FaultTolerance attempts backoff c r w = Some (Return (None, None), r, w)"
  by (simp add: FaultTolerance_def FaultTolerance_loop.simps)

theorem FaultTolerance_negative_witness:
  "sint (- 1 :: go_int) < 0 \<and>
   FaultTolerance (- 1) 1000000000 (flaky 0) get_index boot =
     Some (Return (None, None), get_index, boot)"
  using FaultTolerance_negative [of "- 1" 1000000000 "flaky 0" get_index boot] by simp

text \<open>
  C3. One further attempt, a backoff of one second, a transport that keeps failing.
  The loop multiplies the backoff by the index of the attempt that has just failed,
  counted from zero, and sleeps after every failure: the sleep before the only retry
  lasts zero seconds, and a sleep of one second follows the last attempt, after which
  nothing is retried.
\<close>

theorem FaultTolerance_sleeps:
  "FaultTolerance 1 1000000000 (flaky 2) get_index boot =
     Some (Return (None, Some (Error ''xx'')), get_index,
      boot\<lparr>trace := [Sent ''example.org'', Sleep 0, Sent ''example.org'', Sleep 1000000000],
           clock := 1000000000\<rparr>)"
  by (simp add: FaultTolerance_def FaultTolerance_loop.simps flaky_def calls_def emit_def
      time_Sleep_def get_index_def boot_def Let_def)

section \<open>Composition\<close>

lemma Decorate_foldl: "Decorate c ds = foldl (\<lambda>decorated decorate. decorate decorated) c ds"
  by (induction ds arbitrary: c) simp_all

lemma Decorate_snoc: "Decorate c (ds @ [d]) = d (Decorate c ds)"
  by (induction ds arbitrary: c) simp_all

text \<open>
  C1. \<open>Decorate\<close> folds the decorators over the base from the left, so the decorator
  applied last is the outermost. For two decorators \<open>T1\<close>, \<open>T2\<close> the result is
  \<open>T2 (T1 base)\<close>: an invocation runs what \<open>T2\<close> does before delegating, then what
  \<open>T1\<close> does before delegating, then the base, then what \<open>T1\<close> does afterwards,
  then what \<open>T2\<close> does afterwards.
\<close>

theorem Decorate_order:
  "Decorate base ds = foldl (\<lambda>decorated decorate. decorate decorated) base ds \<and>
   Decorate base (ds @ [T]) = T (Decorate base ds) \<and>
   Decorate base [T1, T2] = T2 (T1 base) \<and>
   Decorate base [around pre1 post1, around pre2 post2] r w =
     (case pre2 r w of (r1, w1) \<Rightarrow>
      case pre1 r1 w1 of (r2, w2) \<Rightarrow>
      case base r2 w2 of
        None \<Rightarrow> None
      | Some (out, r3, w3) \<Rightarrow>
          case post1 r3 w3 of (r4, w4) \<Rightarrow>
          case post2 r4 w4 of (r5, w5) \<Rightarrow> Some (out, r5, w5))"
  by (simp add: Decorate_foldl Decorate_snoc around_def split: prod.splits option.splits)

section \<open>Instrumentation\<close>

text \<open>
  C4. Whatever the wrapped client does when it comes back, return a response, return a
  failure or panic, the instrumented client adds to the trace that the client left
  exactly one observation of the histogram, of the time elapsed since the call began,
  and after it one increment of the counter by one, and changes nothing else.
\<close>

theorem Instrumentation_records_once:
  "Instrumentation requests latency c r w =
     (case c r w of
        None \<Rightarrow> None
      | Some (out, r', w') \<Rightarrow>
          Some (out, r', w'\<lparr>trace := trace w' @
             [Observe latency (Nanoseconds (time_Since (clock w) w')), Add requests 1]\<rparr>)) \<and>
   map_option (\<lambda>x. count_list (trace (snd (snd x))) (Add requests 1))
       (Instrumentation requests latency c r w) =
     map_option (\<lambda>x. count_list (trace (snd (snd x))) (Add requests 1) + 1) (c r w) \<and>
   map_option (\<lambda>x. length (filter (\<lambda>e. case e of Observe h v \<Rightarrow> h = latency | _ \<Rightarrow> False)
                              (trace (snd (snd x)))))
       (Instrumentation requests latency c r w) =
     map_option (\<lambda>x. length (filter (\<lambda>e. case e of Observe h v \<Rightarrow> h = latency | _ \<Rightarrow> False)
                              (trace (snd (snd x)))) + 1) (c r w)"
  by (simp add: Instrumentation_def emit_def Let_def split: prod.splits option.splits)

section \<open>Logging\<close>

text \<open>
  C6. The logging decorator gives its logger one line and then delegates. The line
  holds the method and the URL of the request. Where the user agent was meant to
  stand, it holds the bad-verb form of the method value \<^verbatim>\<open>r.UserAgent\<close>: for a
  request whose user agent is \<^verbatim>\<open>curl/8.0\<close> the line does not hold that string.
\<close>

theorem Logging_line:
  "Logging String fptr l c r w =
     c r (w\<lparr>trace := trace w @
       [Printf l (''%!s(func() string='' @ fptr @ ''): '' @ req_Method r @ '' '' @
                  String (req_URL r))]\<rparr>) \<and>
   UserAgent id get_index = ''curl/8.0'' \<and>
   map_option (\<lambda>x. trace (snd (snd x)))
       (Logging scheme_host_path ''0x6a5b40'' ''client: '' (flaky 0) get_index boot) =
     Some [Printf ''client: '' ''%!s(func() string=0x6a5b40): GET http://example.org/index'',
           Sent ''example.org'']"
  by (simp add: Logging_def Sprintf3_def emit_def UserAgent_def Header_Get_def Header_values_def
      get_index_def boot_def flaky_def calls_def scheme_host_path_def Let_def)

section \<open>Headers\<close>

text \<open>
  C9, as amended. On a request whose header map is allocated, the header decorator
  adds its value under its name to the headers of the request and then delegates; on
  a request whose header map is \<^verbatim>\<open>nil\<close> it panics, and neither adds nor delegates.
  The values stored under the name gain the new value at the end; under every name
  the values already stored stay, in their order; no name is lost. Two header
  decorators both add, the outer one first, and adding the same pair twice stores it
  twice. \<open>Authorization\<close> is the header decorator for the name
  \<^verbatim>\<open>Authorization\<close> and the token.
\<close>

theorem Header_appends:
  "(req_Header r = Some h \<longrightarrow>
      Header canon name val c r w =
        c (r\<lparr>req_Header := Some (append_value canon h name val)\<rparr>) w) \<and>
   (req_Header r = None \<longrightarrow>
      Header canon name val c r w = Some (Panic ''assignment to entry in nil map'', r, w)) \<and>
   Header_values (append_value canon h name val) (canon name) =
     Header_values h (canon name) @ [val] \<and>
   (\<exists>vs. Header_values (append_value canon h name val) k = Header_values h k @ vs) \<and>
   dom (append_value canon h name val) = insert (canon name) (dom h) \<and>
   (req_Header r = Some h \<longrightarrow>
      Decorate c [Header canon n1 v1, Header canon n2 v2] r w =
        c (r\<lparr>req_Header := Some (append_value canon (append_value canon h n2 v2) n1 v1)\<rparr>) w) \<and>
   Header_values (append_value canon (append_value canon h name val) name val) (canon name) =
     Header_values h (canon name) @ [val, val] \<and>
   (req_Header r = Some h \<longrightarrow>
      Authorization canon token c r w =
        c (r\<lparr>req_Header := Some (append_value canon h ''Authorization'' token)\<rparr>) w) \<and>
   Authorization canon token = Header canon ''Authorization'' token"
  by (simp add: Header_def Header_Add_def append_value_def Header_values_def Authorization_def)

text \<open>
  A second header on the request that carries a user agent, and the same decorator on
  the request without a header map.
\<close>

theorem Header_appends_witness:
  "req_Header get_index = Some [''User-Agent'' \<mapsto> [''curl/8.0'']] \<and>
   Header id ''Accept'' ''*/*'' (flaky 0) get_index boot =
     flaky 0 (get_index\<lparr>req_Header :=
        Some (append_value id [''User-Agent'' \<mapsto> [''curl/8.0'']] ''Accept'' ''*/*'')\<rparr>) boot \<and>
   Header_values (append_value id [''User-Agent'' \<mapsto> [''curl/8.0'']] ''Accept'' ''*/*'')
     ''User-Agent'' = [''curl/8.0''] \<and>
   Header_values (append_value id [''User-Agent'' \<mapsto> [''curl/8.0'']] ''Accept'' ''*/*'')
     ''Accept'' = [''*/*''] \<and>
   req_Header bare = None \<and>
   Header id ''Accept'' ''*/*'' (flaky 0) bare boot =
     Some (Panic ''assignment to entry in nil map'', bare, boot)"
proof -
  have h: "req_Header get_index = Some [''User-Agent'' \<mapsto> [''curl/8.0'']]"
    by (simp add: get_index_def)
  have n: "req_Header bare = None"
    by (simp add: bare_def)
  from Header_appends [of get_index "[''User-Agent'' \<mapsto> [''curl/8.0'']]" id "''Accept''"
      "''*/*''" "flaky 0" boot] h
    Header_appends [of bare _ id "''Accept''" "''*/*''" "flaky 0" boot] n
  show ?thesis by (simp add: append_value_def Header_values_def)
qed

text \<open>
  C9, as stated, fails on the request whose header map is \<^verbatim>\<open>nil\<close>: the decorator
  panics, the request is as it was, and the transport has not been invoked.
\<close>

theorem Header_nil_map:
  "Header id ''Accept'' ''*/*'' (flaky 0) bare boot =
     Some (Panic ''assignment to entry in nil map'', bare, boot) \<and>
   req_Header bare = None \<and> trace boot = []"
  by (simp add: Header_def Header_Add_def bare_def boot_def)

section \<open>Directors\<close>

text \<open>
  C7. Over an empty list of backends both directors return without a panic and leave
  the request, its host included, and the world as they were.
\<close>

theorem Directors_empty:
  "RoundRobin_func p [] r w = (Return (), r, w) \<and>
   fst (RoundRobin p robin [] w0) r w = (Return (), r, w) \<and>
   Random_func Intn p [] r w = (Return (), r, w) \<and>
   fst (Random NewSource Intn p seed [] w0) r w = (Return (), r, w)"
  by (simp add: RoundRobin_func_def RoundRobin_def Random_func_def Random_def)

subsection \<open>Round robin\<close>

lemma unat_mod_len: "0 < L \<Longrightarrow> L < 2 ^ 64 \<Longrightarrow> unat ((n :: 64 word) mod word_of_nat L) = unat n mod L"
  by (simp add: unat_mod unat_of_nat)

text \<open>
  An invocation of the round-robin closure over a non-empty list: the counter is
  incremented, and the host is the backend at the new counter modulo the length.
\<close>

lemma RoundRobin_func_step:
  "0 < length bs \<Longrightarrow> length bs < 2 ^ 64 \<Longrightarrow>
   RoundRobin_func p bs r w =
     (Return (), set_Host (bs ! (unat (uint64s w p + 1) mod length bs)) r,
      w\<lparr>uint64s := (uint64s w)(p := uint64s w p + 1)\<rparr>)"
  by (simp add: RoundRobin_func_def Let_def index_def unat_mod_len)

lemma hosts_RoundRobin:
  "0 < length bs \<Longrightarrow> length bs < 2 ^ 64 \<Longrightarrow>
   hosts n (RoundRobin_func p bs) r w =
     map (\<lambda>j. bs ! (unat (uint64s w p + word_of_nat j) mod length bs)) [1..<Suc n]"
proof (induction n arbitrary: r w)
  case 0
  then show ?case by simp
next
  case (Suc n)
  have "hosts (Suc n) (RoundRobin_func p bs) r w =
     bs ! (unat (uint64s w p + 1) mod length bs) #
       hosts n (RoundRobin_func p bs) (set_Host (bs ! (unat (uint64s w p + 1) mod length bs)) r)
         (w\<lparr>uint64s := (uint64s w)(p := uint64s w p + 1)\<rparr>)"
    using Suc.prems by (simp add: RoundRobin_func_step set_Host_def)
  also have "\<dots> = bs ! (unat (uint64s w p + 1) mod length bs) #
      map (\<lambda>j. bs ! (unat (uint64s w p + 1 + word_of_nat j) mod length bs)) [1..<Suc n]"
    using Suc.prems by (simp add: Suc.IH)
  also have "\<dots> = map (\<lambda>j. bs ! (unat (uint64s w p + word_of_nat j) mod length bs)) [1..<Suc (Suc n)]"
  proof -
    have "[1..<Suc (Suc n)] = 1 # map Suc [1..<Suc n]"
      by (metis One_nat_def map_Suc_upt upt_conv_Cons zero_less_Suc Suc_less_eq)
    then show ?thesis by (simp del: upt_Suc add: o_def ac_simps)
  qed
  finally show ?case .
qed

lemma hosts_nine:
  assumes nowrap: "unat robin + 9 < 2 ^ 64"
  shows "hosts 9 (RoundRobin_func p [b0, b1, b2]) r (w\<lparr>uint64s := (uint64s w)(p := robin)\<rparr>) =
    map (\<lambda>j. [b0, b1, b2] ! ((unat robin + j) mod 3)) [1, 2, 3, 4, 5, 6, 7, 8, 9]"
proof -
  let ?bs = "[b0, b1, b2]" and ?w = "w\<lparr>uint64s := (uint64s w)(p := robin)\<rparr>"
  have n: "unat (robin + word_of_nat j) = unat robin + j" if "j \<le> 9" for j
  proof -
    from that nowrap have "unat robin + unat (word_of_nat j :: 64 word) < 2 ^ 64"
      by (simp add: unat_of_nat)
    with that show ?thesis
      by (simp add: unat_add_lem [THEN iffD1] unat_of_nat)
  qed
  have l: "[1..<Suc 9] = [1, 2, 3, 4, 5, 6, 7, 8, 9]"
    by (simp add: upt_rec)
  have "hosts 9 (RoundRobin_func p ?bs) r ?w =
      map (\<lambda>j. ?bs ! (unat (uint64s ?w p + word_of_nat j) mod length ?bs)) [1..<Suc 9]"
    by (rule hosts_RoundRobin) simp_all
  also have "\<dots> = map (\<lambda>j. ?bs ! ((unat robin + j) mod 3)) [1..<Suc 9]"
    by (rule map_cong [OF refl]) (simp add: n)
  finally show ?thesis
    unfolding l .
qed

lemma cycle3:
  fixes n :: nat
  shows "map (\<lambda>j. [b0, b1, b2] ! ((n + j) mod 3)) [1, 2, 3, 4, 5, 6, 7, 8, 9] =
         rotate ((n + 1) mod 3) [b0, b1, b2] @ rotate ((n + 1) mod 3) [b0, b1, b2] @
         rotate ((n + 1) mod 3) [b0, b1, b2]"
proof -
  have x: "(n + j) mod 3 = (n mod 3 + j mod 3) mod 3" for j
    by (simp add: mod_add_eq)
  have "n mod 3 = 0 \<or> n mod 3 = 1 \<or> n mod 3 = 2"
    by arith
  then show ?thesis
    unfolding x by (elim disjE) (simp_all add: numeral_2_eq_2)
qed

lemma count_list_rotate1: "count_list (rotate1 xs) b = count_list xs b"
  by (cases xs) simp_all

lemma count_list_rotate: "count_list (rotate k xs) b = count_list xs b"
  by (induction k) (simp_all add: count_list_rotate1)

lemma count_cycle3:
  "count_list (rotate k [b0, b1, b2] @ rotate k [b0, b1, b2] @ rotate k [b0, b1, b2]) b =
     3 * count_list [b0, b1, b2] b"
  by (simp only: count_list_append count_list_rotate)

text \<open>
  C8, as amended. Every invocation of a round-robin director over three backends
  increments its counter and sets the host to the backend at the new counter modulo
  three. When the counter does not wrap around \<open>2\<^sup>6\<^sup>4\<close> in the course of nine
  sequential invocations, the hosts selected are the backends at \<open>(robin + j) mod 3\<close>
  for \<open>j = 1, \<dots>, 9\<close>: a rotation of the list three times over, fixed by the
  starting counter, in which every backend is selected three times for each place it
  has in the list.
\<close>

theorem RoundRobin_nine:
  assumes nowrap: "unat robin + 9 < 2 ^ 64"
  shows "fst (RoundRobin p robin [b0, b1, b2] w) r' w' =
           (Return (), set_Host ([b0, b1, b2] ! (unat (uint64s w' p + 1) mod 3)) r',
            w'\<lparr>uint64s := (uint64s w')(p := uint64s w' p + 1)\<rparr>) \<and>
         uint64s (snd (RoundRobin p robin [b0, b1, b2] w)) p = robin \<and>
         hosts 9 (fst (RoundRobin p robin [b0, b1, b2] w)) r (snd (RoundRobin p robin [b0, b1, b2] w)) =
           map (\<lambda>j. [b0, b1, b2] ! ((unat robin + j) mod 3)) [1, 2, 3, 4, 5, 6, 7, 8, 9] \<and>
         hosts 9 (fst (RoundRobin p robin [b0, b1, b2] w)) r (snd (RoundRobin p robin [b0, b1, b2] w)) =
           rotate ((unat robin + 1) mod 3) [b0, b1, b2] @ rotate ((unat robin + 1) mod 3) [b0, b1, b2] @
           rotate ((unat robin + 1) mod 3) [b0, b1, b2] \<and>
         count_list (hosts 9 (fst (RoundRobin p robin [b0, b1, b2] w)) r
                       (snd (RoundRobin p robin [b0, b1, b2] w))) b =
           3 * count_list [b0, b1, b2] b"
proof -
  let ?h = "hosts 9 (fst (RoundRobin p robin [b0, b1, b2] w)) r (snd (RoundRobin p robin [b0, b1, b2] w))"
  have h: "?h = map (\<lambda>j. [b0, b1, b2] ! ((unat robin + j) mod 3)) [1, 2, 3, 4, 5, 6, 7, 8, 9]"
    using hosts_nine [OF nowrap] by (simp only: RoundRobin_def fst_conv snd_conv)
  have e: "?h = rotate ((unat robin + 1) mod 3) [b0, b1, b2] @ rotate ((unat robin + 1) mod 3) [b0, b1, b2] @
           rotate ((unat robin + 1) mod 3) [b0, b1, b2]"
    unfolding h by (rule cycle3)
  have s: "fst (RoundRobin p robin [b0, b1, b2] w) r' w' =
           (Return (), set_Host ([b0, b1, b2] ! (unat (uint64s w' p + 1) mod 3)) r',
            w'\<lparr>uint64s := (uint64s w')(p := uint64s w' p + 1)\<rparr>)"
    using RoundRobin_func_step [of "[b0, b1, b2]" p r' w'] by (simp add: RoundRobin_def)
  have c: "count_list ?h b = 3 * count_list [b0, b1, b2] b"
    unfolding e by (rule count_cycle3)
  have u: "uint64s (snd (RoundRobin p robin [b0, b1, b2] w)) p = robin"
    by (simp add: RoundRobin_def)
  from s u h e c show ?thesis by (intro conjI)
qed

text \<open>The director of the example pipeline: counter 0 over three web servers.\<close>

theorem RoundRobin_nine_witness:
  "unat (0 :: 64 word) + 9 < 2 ^ 64 \<and>
   hosts 9 (fst (RoundRobin 0 0 web boot)) get_index (snd (RoundRobin 0 0 web boot)) =
     [''web02'', ''web03'', ''web01'', ''web02'', ''web03'', ''web01'',
      ''web02'', ''web03'', ''web01''] \<and>
   count_list (hosts 9 (fst (RoundRobin 0 0 web boot)) get_index (snd (RoundRobin 0 0 web boot)))
     ''web03'' = 3"
proof -
  have n: "unat (0 :: 64 word) + 9 < 2 ^ 64" by simp
  from RoundRobin_nine [OF n, of 0 "''web01''" "''web02''" "''web03''" boot _ _ get_index "''web03''"]
  show ?thesis by (simp add: web_def)
qed

text \<open>
  C8, as stated, fails for a starting counter two below \<open>2\<^sup>6\<^sup>4\<close>: the counter
  wraps from \<open>2\<^sup>6\<^sup>4 - 1\<close> to \<open>0\<close>, both of them \<open>0\<close> modulo three, so the first
  backend is selected twice in a row, and four times in nine invocations.
\<close>

theorem RoundRobin_wraps:
  "hosts 9 (fst (RoundRobin 0 18446744073709551614 web boot)) get_index
       (snd (RoundRobin 0 18446744073709551614 web boot)) =
     [''web01'', ''web01'', ''web02'', ''web03'', ''web01'', ''web02'',
      ''web03'', ''web01'', ''web02''] \<and>
   count_list (hosts 9 (fst (RoundRobin 0 18446744073709551614 web boot)) get_index
       (snd (RoundRobin 0 18446744073709551614 web boot))) ''web01'' = 4"
  by code_simp

section \<open>Pass-through\<close>

lemma passes_Logging: "passes (Logging String fptr l)"
  unfolding passes_def Logging_def
  by (rule exI [of _ "\<lambda>r w. r"],
      rule exI [of _ "\<lambda>r w. emit (Printf l (Sprintf3 (FuncValue ''func() string'' fptr)
                 (Str (req_Method r)) (Stringer (String (req_URL r))))) w"],
      rule exI [of _ "\<lambda>r w. None"]) simp

lemma handed_back_Instrumentation:
  "handed_back (Instrumentation requests latency c r w) = handed_back (c r w)"
  by (simp add: handed_back_def Instrumentation_def Let_def split: option.splits prod.splits)

lemma passes_Instrumentation: "passes (Instrumentation requests latency)"
  unfolding passes_def
  by (rule exI [of _ "\<lambda>r w. r"], rule exI [of _ "\<lambda>r w. w"], rule exI [of _ "\<lambda>r w. None"])
     (simp add: handed_back_Instrumentation)

lemma passes_Header: "passes (Header canon name val)"
  unfolding passes_def
  by (rule exI [of _ "\<lambda>r w. case req_Header r of None \<Rightarrow> r
                          | Some h \<Rightarrow> r\<lparr>req_Header := Some (append_value canon h name val)\<rparr>"],
      rule exI [of _ "\<lambda>r w. w"],
      rule exI [of _ "\<lambda>r w. case req_Header r of None \<Rightarrow> Some ''assignment to entry in nil map''
                          | Some h \<Rightarrow> None"])
     (simp add: Header_def Header_Add_def handed_back_def split: option.splits)

lemma passes_LoadBalancing: "passes (LoadBalancing dir)"
  unfolding passes_def
  by (rule exI [of _ "\<lambda>r w. fst (snd (dir r w))"], rule exI [of _ "\<lambda>r w. snd (snd (dir r w))"],
      rule exI [of _ "\<lambda>r w. case fst (dir r w) of Panic m \<Rightarrow> Some m | Return u \<Rightarrow> None"])
     (simp add: LoadBalancing_def handed_back_def split: prod.splits outcome.splits)

text \<open>A decorator that passes through, around another one, passes through.\<close>

lemma passes_compose:
  assumes "passes d1" and "passes d2"
  shows "passes (\<lambda>c. d2 (d1 c))"
proof -
  from assms(1) obtain f1 g1 p1 where 1: "\<And>c r w. handed_back (d1 c r w) =
      (case p1 r w of Some m \<Rightarrow> Some (Panic m) | None \<Rightarrow> handed_back (c (f1 r w) (g1 r w)))"
    unfolding passes_def by blast
  from assms(2) obtain f2 g2 p2 where 2: "\<And>c r w. handed_back (d2 c r w) =
      (case p2 r w of Some m \<Rightarrow> Some (Panic m) | None \<Rightarrow> handed_back (c (f2 r w) (g2 r w)))"
    unfolding passes_def by blast
  show ?thesis
    unfolding passes_def
    by (rule exI [of _ "\<lambda>r w. f1 (f2 r w) (g2 r w)"], rule exI [of _ "\<lambda>r w. g1 (f2 r w) (g2 r w)"],
        rule exI [of _ "\<lambda>r w. case p2 r w of Some m \<Rightarrow> Some m | None \<Rightarrow> p1 (f2 r w) (g2 r w)"])
       (simp add: 1 2 split: option.splits)
qed

lemma passes_Decorate: "(\<forall>d\<in>set ds. passes d) \<Longrightarrow> passes (\<lambda>c. Decorate c ds)"
proof (induction ds rule: rev_induct)
  case Nil
  show ?case
    unfolding passes_def
    by (rule exI [of _ "\<lambda>r w. r"], rule exI [of _ "\<lambda>r w. w"], rule exI [of _ "\<lambda>r w. None"]) simp
next
  case (snoc d ds)
  then have "passes (\<lambda>c. Decorate c ds)" and "passes d" by simp_all
  then have "passes (\<lambda>c. d (Decorate c ds))" by (rule passes_compose)
  then show ?case by (simp add: Decorate_snoc)
qed

text \<open>
  The retry decorator does not pass through: what it hands back comes from the first
  invocation of one client and from the second invocation of another.
\<close>

lemma FaultTolerance_not_passes: "\<not> passes (FaultTolerance 1 0)"
proof
  assume "passes (FaultTolerance 1 0)"
  then obtain f g p where h: "\<And>c r w. handed_back (FaultTolerance 1 0 c r w) =
      (case p r w of Some m \<Rightarrow> Some (Panic m) | None \<Rightarrow> handed_back (c (f r w) (g r w)))"
    unfolding passes_def by blast
  have a: "handed_back (FaultTolerance 1 0 (flaky 1) get_index boot) =
      Some (Return (Some \<lparr>StatusCode = 200, Body = ''OK''\<rparr>, None))"
    by (simp add: FaultTolerance_def FaultTolerance_loop.simps flaky_def calls_def emit_def
        time_Sleep_def boot_def Let_def handed_back_def)
  have b: "handed_back (FaultTolerance 1 0 spent get_index boot) =
      Some (Return (Some \<lparr>StatusCode = 200, Body = ''OK''\<rparr>, None))"
    by (simp add: FaultTolerance_def FaultTolerance_loop.simps spent_def calls_def emit_def
        boot_def Let_def handed_back_def)
  show False
  proof (cases "p get_index boot")
    case (Some m)
    with h [of "flaky 1" get_index boot] a show False by simp
  next
    case None
    with h [of "flaky 1" get_index boot] a
    have "\<not> calls (g get_index boot) < 1"
      by (auto simp: flaky_def Let_def handed_back_def split: if_splits)
    moreover from None h [of spent get_index boot] b
    have "calls (g get_index boot) = 0"
      by (auto simp: spent_def Let_def handed_back_def split: if_splits)
    ultimately show False by simp
  qed
qed

text \<open>
  C5, as amended. The logging and instrumentation decorators hand back exactly what
  their one invocation of the wrapped client hands back; so do the header and
  authorization decorators on a request whose header map is allocated, and the
  load-balancing decorator when its director returns. Each of them passes through:
  it prepares the request and the world without looking at the client, and either
  panics before it delegates or hands back what the one invocation hands back. So
  does every pipeline that \<open>Decorate\<close> builds from decorators that pass through: what
  the outermost layer hands back is what the one invocation of the base handed back.
\<close>

theorem pass_through:
  "Logging String fptr l c r w =
     c r (emit (Printf l (Sprintf3 (FuncValue ''func() string'' fptr) (Str (req_Method r))
                            (Stringer (String (req_URL r))))) w) \<and>
   handed_back (Instrumentation requests latency c r w) = handed_back (c r w) \<and>
   (req_Header r = Some h \<longrightarrow>
      Header canon name val c r w =
        c (r\<lparr>req_Header := Some (append_value canon h name val)\<rparr>) w) \<and>
   (req_Header r = Some h \<longrightarrow>
      Authorization canon token c r w =
        c (r\<lparr>req_Header := Some (append_value canon h ''Authorization'' token)\<rparr>) w) \<and>
   LoadBalancing dir c r w =
     (case dir r w of
        (Panic m, r', w') \<Rightarrow> Some (Panic m, r', w')
      | (Return u, r', w') \<Rightarrow> c r' w') \<and>
   passes (Logging String fptr l) \<and>
   passes (Instrumentation requests latency) \<and>
   passes (Header canon name val) \<and>
   passes (Authorization canon token) \<and>
   passes (LoadBalancing dir) \<and>
   ((\<forall>d\<in>set ds. passes d) \<longrightarrow> passes (\<lambda>c. Decorate c ds))"
  using passes_Decorate [of ds]
  by (simp add: passes_Logging passes_Instrumentation passes_Header passes_LoadBalancing
      handed_back_Instrumentation Logging_def Header_def Header_Add_def Authorization_def
      LoadBalancing_def)

text \<open>
  The pipeline of the example without its retries, over a transport that succeeds.
\<close>

theorem pass_through_witness:
  "req_Header get_index = Some [''User-Agent'' \<mapsto> [''curl/8.0'']] \<and>
   Authorization id ''token'' (flaky 0) get_index boot =
     flaky 0 (get_index\<lparr>req_Header :=
        Some (append_value id [''User-Agent'' \<mapsto> [''curl/8.0'']] ''Authorization'' ''token'')\<rparr>)
       boot \<and>
   passes (Authorization id ''token'') \<and>
   passes (LoadBalancing (RoundRobin_func 0 web)) \<and>
   passes (Logging scheme_host_path ''0x6a5b40'' ''client: '') \<and>
   passes (Instrumentation ''client.requests'' ''client.latency'') \<and>
   passes (\<lambda>c. Decorate c
          [Authorization id ''token'', LoadBalancing (RoundRobin_func 0 web),
           Logging scheme_host_path ''0x6a5b40'' ''client: '',
           Instrumentation ''client.requests'' ''client.latency'']) \<and>
   handed_back (Decorate (flaky 0)
          [Authorization id ''token'', LoadBalancing (RoundRobin_func 0 web),
           Logging scheme_host_path ''0x6a5b40'' ''client: '',
           Instrumentation ''client.requests'' ''client.latency''] get_index boot) =
     Some (Return (Some \<lparr>StatusCode = 200, Body = ''OK''\<rparr>, None))"
proof -
  let ?ds = "[Authorization id ''token'', LoadBalancing (RoundRobin_func 0 web),
              Logging scheme_host_path ''0x6a5b40'' ''client: '',
              Instrumentation ''client.requests'' ''client.latency'']"
  note t = pass_through [where canon = id and token = "''token''" and dir = "RoundRobin_func 0 web"
        and String = scheme_host_path and fptr = "''0x6a5b40''" and l = "''client: ''"
        and requests = "''client.requests''" and latency = "''client.latency''"
        and r = get_index and w = boot and c = "flaky 0"
        and h = "[''User-Agent'' \<mapsto> [''curl/8.0'']]" and ds = ?ds]
  have h: "req_Header get_index = Some [''User-Agent'' \<mapsto> [''curl/8.0'']]"
    by (simp add: get_index_def)
  from t have a: "\<forall>d \<in> set ?ds. passes d" by simp
  with t have p: "passes (\<lambda>c. Decorate c ?ds)" by blast
  have e: "handed_back (Decorate (flaky 0) ?ds get_index boot) =
      Some (Return (Some \<lparr>StatusCode = 200, Body = ''OK''\<rparr>, None))"
    by (simp add: handed_back_def Authorization_def Header_def Header_Add_def LoadBalancing_def
        RoundRobin_func_def index_def web_def Logging_def Instrumentation_def flaky_def Let_def
        get_index_def boot_def emit_def set_Host_def)
  from t h a p e show ?thesis by simp
qed

text \<open>
  C5, as stated, fails on the request whose header map is \<^verbatim>\<open>nil\<close>: the transport
  would return a response for it, and the authorization decorator panics instead.
\<close>

theorem Authorization_nil_map:
  "handed_back (Authorization id ''token'' (flaky 0) bare boot) =
     Some (Panic ''assignment to entry in nil map'') \<and>
   handed_back (flaky 0 bare boot) = Some (Return (Some \<lparr>StatusCode = 200, Body = ''OK''\<rparr>, None))"
  by (simp add: Authorization_def Header_def Header_Add_def bare_def handed_back_def flaky_def
      Let_def)

end
